theory Spec2Isabelle
  imports Main "HOL-Library.Word"
begin

section \<open>pySim/javacard.py: CAP archives and the IJC splitter\<close>

text \<open>
  A shallow embedding of \<^verbatim>\<open>pySim/javacard.py\<close>. Byte strings are lists of 8-bit
  words, entry names are strings, Python's exceptions are values of \<open>error\<close>, and a
  function that can raise returns \<open>error + 'a\<close> (\<open>Inl\<close> is the raise).
\<close>

type_synonym byte = "8 word"
type_synonym bytes = "byte list"

subsection \<open>Exceptions\<close>

text \<open>
  One constructor per exception the module can raise. The four \<open>ValueError\<close>s of
  \<^verbatim>\<open>CapFile\<close> differ only in their message; the constructor keeps what the message
  is formatted from:
  \<^item> \<open>MissingComponent n\<close>: \<^verbatim>\<open>ValueError("invalid cap file, COMPONENT_<n> missing!")\<close>;
  \<^item> \<open>MissingOptionalComponent n\<close>: \<^verbatim>\<open>ValueError("can't get the AID, this cap file lacks
    the optional COMPONENT_<n> component!")\<close>;
  \<^item> \<open>InvalidMagic found expected\<close>: \<^verbatim>\<open>ValueError("invalid cap file, COMPONENT_Header lacks
    magic number (0x%08X!=0xDECAFFED)!" % magic)\<close>;
  \<^item> \<open>AppletIndexOutOfRange index count\<close>: \<^verbatim>\<open>ValueError("can't get the AID for applet with
    index=%u, this .cap file only has %u applets!" % (index, count))\<close>;
  \<^item> \<open>IndexError\<close>: a list subscript out of range;
  \<^item> \<open>StructError\<close>: \<^verbatim>\<open>struct.error\<close>, \<^verbatim>\<open>struct.unpack\<close> on a buffer of the wrong size;
  \<^item> \<open>StreamError\<close>: the structure decoder ran out of bytes;
  \<^item> \<open>KeyError\<close>: \<^verbatim>\<open>ZipFile.read\<close> of a name the archive does not hold;
  \<^item> \<open>TypeError\<close>: \<^verbatim>\<open>bytes + None\<close>.
\<close>

datatype error =
    MissingComponent string
  | MissingOptionalComponent string
  | InvalidMagic nat nat
  | AppletIndexOutOfRange int nat
  | IndexError
  | StructError
  | StreamError
  | KeyError
  | TypeError

subsection \<open>Python primitives\<close>

text \<open>
  The subscript \<^verbatim>\<open>xs[i]\<close> of a Python list: indices from 0 read from the front, indices
  from -1 down to \<^verbatim>\<open>-len(xs)\<close> read from the back, any other index raises.
\<close>

definition getitem :: "'a list \<Rightarrow> int \<Rightarrow> error + 'a" where
  "getitem xs i =
     (if 0 \<le> i \<and> i < int (length xs) then Inr (xs ! nat i)
      else if i < 0 \<and> - int (length xs) \<le> i then Inr (xs ! nat (int (length xs) + i))
      else Inl IndexError)"

text \<open>
  \<^verbatim>\<open>struct.unpack('!BH', buf)\<close>: one unsigned byte and one big-endian unsigned 16-bit
  integer, from a buffer of exactly three bytes.
\<close>

definition struct_unpack_BH :: "bytes \<Rightarrow> error + (nat \<times> nat)" where
  "struct_unpack_BH buf =
     (case buf of
        [t, hi, lo] \<Rightarrow> Inr (unat t, unat hi * 256 + unat lo)
      | _ \<Rightarrow> Inl StructError)"

subsection \<open>The archive collaborator\<close>

text \<open>
  A \<^verbatim>\<open>zipfile.ZipFile\<close> is the list of its entries, in archive order; a name can occur
  more than once. \<^verbatim>\<open>writestr\<close> appends an entry, \<^verbatim>\<open>namelist\<close> lists every entry's
  name, and \<^verbatim>\<open>read(name)\<close> returns the data of the last entry of that name.
\<close>

type_synonym zipfile = "(string \<times> bytes) list"

definition writestr :: "zipfile \<Rightarrow> string \<Rightarrow> bytes \<Rightarrow> zipfile" where
  "writestr z name data = z @ [(name, data)]"

definition namelist :: "zipfile \<Rightarrow> string list" where
  "namelist z = map fst z"

definition zip_read :: "zipfile \<Rightarrow> string \<Rightarrow> error + bytes" where
  "zip_read z name =
     (case map_of (rev z) name of None \<Rightarrow> Inl KeyError | Some data \<Rightarrow> Inr data)"

subsection \<open>\<^verbatim>\<open>ijc_to_cap\<close>\<close>

definition TAGS :: "string list" where
  "TAGS = [''Header'', ''Directory'', ''Applet'', ''Import'', ''ConstantPool'', ''Class'',
           ''Method'', ''StaticField'', ''RefLocation'', ''Export'', ''Descriptor'', ''Debug'']"

text \<open>
  The loop of \<^verbatim>\<open>ijc_to_cap\<close> over the bytes \<open>b\<close> still to split. \<open>out_zip\<close> is the
  archive written so far and \<open>p\<close> the path prefix. The result is the archive as the call
  leaves it and the exception that ended the call, if any: entries written before a raise
  stay written. Both arguments of \<^verbatim>\<open>writestr\<close> are evaluated before it is called, so
  a failing \<^verbatim>\<open>TAGS[tag-1]\<close> writes nothing.
\<close>

function ijc_to_cap :: "bytes \<Rightarrow> zipfile \<Rightarrow> string \<Rightarrow> zipfile \<times> error option" where
  "ijc_to_cap b out_zip p =
     (if length b = 0 then (out_zip, None)
      else
        (case struct_unpack_BH (take 3 b) of
           Inl e \<Rightarrow> (out_zip, Some e)
         | Inr (tag, sz) \<Rightarrow>
             (case getitem TAGS (int tag - 1) of
                Inl e \<Rightarrow> (out_zip, Some e)
              | Inr name \<Rightarrow>
                  ijc_to_cap (drop (3 + sz) b)
                    (writestr out_zip (p @ ''/javacard/'' @ name @ ''.cap'') (take (3 + sz) b))
                    p)))"
  by pat_completeness auto
termination
  by (relation "measure (\<lambda>(b, out_zip, p). length b)") auto

declare ijc_to_cap.simps [simp del]

subsection \<open>Strings\<close>

text \<open>
  \<^verbatim>\<open>str.lower\<close> on entry names: the letters A to Z become a to z, every other
  character stays. (Python also lowers letters outside ASCII, which never makes a name
  end in one of the twelve ASCII suffixes that \<^verbatim>\<open>__init__\<close> compares with, nor keeps
  it from doing so.)
\<close>

definition lower_char :: "char \<Rightarrow> char" where
  "lower_char c =
     (case map_of (zip ''ABCDEFGHIJKLMNOPQRSTUVWXYZ'' ''abcdefghijklmnopqrstuvwxyz'') c of
        None \<Rightarrow> c
      | Some l \<Rightarrow> l)"

definition lower :: "string \<Rightarrow> string" where
  "lower s = map lower_char s"

definition endswith :: "string \<Rightarrow> string \<Rightarrow> bool" where
  "endswith s suf = (length suf \<le> length s \<and> drop (length s - length suf) s = suf)"

text \<open>
  \<^verbatim>\<open>osmocom.utils.b2h\<close>, the hex rendering the module imports: two lowercase hex
  digits per byte.
\<close>

definition hexdigit :: "nat \<Rightarrow> char" where
  "hexdigit n = ''0123456789abcdef'' ! n"

definition b2h :: "bytes \<Rightarrow> string" where
  "b2h b = concat (map (\<lambda>x. [hexdigit (unat x div 16), hexdigit (unat x mod 16)]) b)"

subsection \<open>The structure decoder\<close>

text \<open>
  The constructs of the \<^verbatim>\<open>construct\<close> library that the two \<^verbatim>\<open>Struct\<close> declarations
  of \<^verbatim>\<open>CapFile\<close> are built from. A construct reads from the bytes not yet consumed and
  returns its value with the bytes left, or raises \<open>StreamError\<close> when too few remain.
  \<^item> \<open>Int8ub\<close>, \<open>Int16ub\<close>, \<open>Int32ub\<close>: big-endian unsigned integers of 1, 2 and 4 bytes.
  \<^item> \<open>LV\<close> (\<^verbatim>\<open>osmocom.construct\<close>): one length byte, then that many bytes, which the
    library's adapter renders as a hex string (the accessors are documented to return an
    AID "as hexstring").
  \<^item> \<open>COptional\<close> (\<^verbatim>\<open>construct.Optional\<close>): tries the sub-construct; when that raises,
    the value is \<open>None\<close>, nothing is consumed and the parse goes on.
  \<^item> \<open>Array count subcon\<close>: \<open>count\<close> values of the sub-construct, one after another.
  \<^item> \<open>then_parse\<close> and \<open>parsed\<close> chain the fields of a \<^verbatim>\<open>Struct\<close> in declaration order.
  \<^item> \<open>parse\<close>: \<^verbatim>\<open>Construct.parse(data)\<close> wraps \<^verbatim>\<open>data\<close> in \<^verbatim>\<open>io.BytesIO\<close>, for which
    \<^verbatim>\<open>None\<close> is the empty buffer, and ignores bytes left over after the last field.
\<close>

type_synonym 'a parser = "bytes \<Rightarrow> error + ('a \<times> bytes)"

definition then_parse :: "'a parser \<Rightarrow> ('a \<Rightarrow> 'b parser) \<Rightarrow> 'b parser" where
  "then_parse p f s = (case p s of Inl e \<Rightarrow> Inl e | Inr (v, rest) \<Rightarrow> f v rest)"

definition parsed :: "'a \<Rightarrow> 'a parser" where
  "parsed v s = Inr (v, s)"

definition Int8ub :: "nat parser" where
  "Int8ub s = (case s of x # rest \<Rightarrow> Inr (unat x, rest) | _ \<Rightarrow> Inl StreamError)"

definition Int16ub :: "nat parser" where
  "Int16ub s =
     (case s of
        x1 # x0 # rest \<Rightarrow> Inr (unat x1 * 256 + unat x0, rest)
      | _ \<Rightarrow> Inl StreamError)"

definition Int32ub :: "nat parser" where
  "Int32ub s =
     (case s of
        x3 # x2 # x1 # x0 # rest \<Rightarrow>
          Inr (((unat x3 * 256 + unat x2) * 256 + unat x1) * 256 + unat x0, rest)
      | _ \<Rightarrow> Inl StreamError)"

definition LV :: "string parser" where
  "LV = then_parse Int8ub
          (\<lambda>n s. if length s < n then Inl StreamError else Inr (b2h (take n s), drop n s))"

definition COptional :: "'a parser \<Rightarrow> 'a option parser" where
  "COptional subcon s =
     (case subcon s of Inl e \<Rightarrow> Inr (None, s) | Inr (v, rest) \<Rightarrow> Inr (Some v, rest))"

fun Array :: "nat \<Rightarrow> 'a parser \<Rightarrow> 'a list parser" where
  "Array 0 subcon s = Inr ([], s)"
| "Array (Suc n) subcon s =
     (case subcon s of
        Inl e \<Rightarrow> Inl e
      | Inr (v, rest) \<Rightarrow>
          (case Array n subcon rest of
             Inl e \<Rightarrow> Inl e
           | Inr (vs, rest') \<Rightarrow> Inr (v # vs, rest')))"

definition parse :: "'a parser \<Rightarrow> bytes option \<Rightarrow> error + 'a" where
  "parse con data =
     (case con (case data of None \<Rightarrow> [] | Some d \<Rightarrow> d) of
        Inl e \<Rightarrow> Inl e
      | Inr (v, rest) \<Rightarrow> Inr v)"

subsection \<open>CapFile\<close>

text \<open>
  The decoded views of the Header and Applet components (Java Card VM specification,
  sections 6.4 and 6.6). Field names carry their structure's name as a prefix.
\<close>

record package =
  package_minor_version :: nat
  package_major_version :: nat
  package_AID :: string

record header =
  header_tag :: nat
  header_size :: nat
  header_magic :: nat
  header_minor_version :: nat
  header_major_version :: nat
  header_flags :: nat
  header_package :: package
  header_package_name :: "string option"

record applet_entry =
  applets_AID :: string
  applets_install_method_offset :: nat

record applet =
  applet_tag :: nat
  applet_size :: nat
  applet_count :: nat
  applet_applets :: "applet_entry list"

definition package_struct :: "package parser" where
  "package_struct =
     then_parse Int8ub (\<lambda>minor_version.
     then_parse Int8ub (\<lambda>major_version.
     then_parse LV (\<lambda>aid.
     parsed \<lparr>package_minor_version = minor_version, package_major_version = major_version,
             package_AID = aid\<rparr>)))"

text \<open>
  \<^verbatim>\<open>__header_component_compact\<close>, in two steps so that the bytes left after the
  \<^verbatim>\<open>package\<close> sub-record can be named: the seven fields from \<^verbatim>\<open>tag\<close> to \<^verbatim>\<open>package\<close>,
  then the optional \<^verbatim>\<open>package_name\<close>.
\<close>

definition header_through_package ::
  "(nat \<times> nat \<times> nat \<times> nat \<times> nat \<times> nat \<times> package) parser" where
  "header_through_package =
     then_parse Int8ub (\<lambda>tag.
     then_parse Int16ub (\<lambda>sz.
     then_parse Int32ub (\<lambda>magic.
     then_parse Int8ub (\<lambda>minor_version.
     then_parse Int8ub (\<lambda>major_version.
     then_parse Int8ub (\<lambda>flags.
     then_parse package_struct (\<lambda>pkg.
     parsed (tag, sz, magic, minor_version, major_version, flags, pkg))))))))"

definition header_component_compact :: "header parser" where
  "header_component_compact =
     then_parse header_through_package (\<lambda>(tag, sz, magic, minor_version, major_version, flags, pkg).
     then_parse (COptional LV) (\<lambda>package_name.
     parsed \<lparr>header_tag = tag, header_size = sz, header_magic = magic,
             header_minor_version = minor_version, header_major_version = major_version,
             header_flags = flags, header_package = pkg,
             header_package_name = package_name\<rparr>))"

definition applet_entry_struct :: "applet_entry parser" where
  "applet_entry_struct =
     then_parse LV (\<lambda>aid.
     then_parse Int16ub (\<lambda>install_method_offset.
     parsed \<lparr>applets_AID = aid, applets_install_method_offset = install_method_offset\<rparr>))"

definition applet_component_compact :: "applet parser" where
  "applet_component_compact =
     then_parse Int8ub (\<lambda>tag.
     then_parse Int16ub (\<lambda>sz.
     then_parse Int8ub (\<lambda>count.
     then_parse (Array count applet_entry_struct) (\<lambda>applets.
     parsed \<lparr>applet_tag = tag, applet_size = sz, applet_count = count,
             applet_applets = applets\<rparr>))))"

text \<open>
  The twelve component attributes of a \<^verbatim>\<open>CapFile\<close> object. \<open>CapFile_class\<close> holds
  the class attributes, all \<^verbatim>\<open>None\<close>, which an object shows until \<^verbatim>\<open>__init__\<close> assigns.
\<close>

record CapFile =
  component_header :: "bytes option"
  component_directory :: "bytes option"
  component_applet :: "bytes option"
  component_import :: "bytes option"
  component_constantPool :: "bytes option"
  component_class :: "bytes option"
  component_method :: "bytes option"
  component_staticField :: "bytes option"
  component_referenceLocation :: "bytes option"
  component_export :: "bytes option"
  component_descriptor :: "bytes option"
  component_debug :: "bytes option"

definition CapFile_class :: CapFile where
  "CapFile_class =
     \<lparr>component_header = None, component_directory = None, component_applet = None,
      component_import = None, component_constantPool = None, component_class = None,
      component_method = None, component_staticField = None,
      component_referenceLocation = None, component_export = None,
      component_descriptor = None, component_debug = None\<rparr>"

text \<open>
  \<^verbatim>\<open>self.__component_x = cap.read(filename)\<close>: the read may raise, then the attribute is
  assigned.
\<close>

definition assign :: "error + bytes \<Rightarrow> (bytes option \<Rightarrow> CapFile) \<Rightarrow> error + CapFile" where
  "assign r upd = (case r of Inl e \<Rightarrow> Inl e | Inr data \<Rightarrow> Inr (upd (Some data)))"

text \<open>One iteration of the loop over \<^verbatim>\<open>cap_namelist\<close>: the \<^verbatim>\<open>if\<close>/\<^verbatim>\<open>elif\<close> chain.\<close>

definition init_entry :: "zipfile \<Rightarrow> string \<Rightarrow> CapFile \<Rightarrow> error + CapFile" where
  "init_entry cap filename self =
     (if endswith (lower filename) ''header.cap'' then
        assign (zip_read cap filename) (\<lambda>d. self\<lparr>component_header := d\<rparr>)
      else if endswith (lower filename) ''directory.cap'' then
        assign (zip_read cap filename) (\<lambda>d. self\<lparr>component_directory := d\<rparr>)
      else if endswith (lower filename) ''applet.cap'' then
        assign (zip_read cap filename) (\<lambda>d. self\<lparr>component_applet := d\<rparr>)
      else if endswith (lower filename) ''import.cap'' then
        assign (zip_read cap filename) (\<lambda>d. self\<lparr>component_import := d\<rparr>)
      else if endswith (lower filename) ''constantpool.cap'' then
        assign (zip_read cap filename) (\<lambda>d. self\<lparr>component_constantPool := d\<rparr>)
      else if endswith (lower filename) ''class.cap'' then
        assign (zip_read cap filename) (\<lambda>d. self\<lparr>component_class := d\<rparr>)
      else if endswith (lower filename) ''method.cap'' then
        assign (zip_read cap filename) (\<lambda>d. self\<lparr>component_method := d\<rparr>)
      else if endswith (lower filename) ''staticfield.cap'' then
        assign (zip_read cap filename) (\<lambda>d. self\<lparr>component_staticField := d\<rparr>)
      else if endswith (lower filename) ''reflocation.cap'' then
        assign (zip_read cap filename) (\<lambda>d. self\<lparr>component_referenceLocation := d\<rparr>)
      else if endswith (lower filename) ''export.cap'' then
        assign (zip_read cap filename) (\<lambda>d. self\<lparr>component_export := d\<rparr>)
      else if endswith (lower filename) ''descriptor.cap'' then
        assign (zip_read cap filename) (\<lambda>d. self\<lparr>component_descriptor := d\<rparr>)
      else if endswith (lower filename) ''debug.cap'' then
        assign (zip_read cap filename) (\<lambda>d. self\<lparr>component_debug := d\<rparr>)
      else Inr self)"

fun init_entries :: "zipfile \<Rightarrow> string list \<Rightarrow> CapFile \<Rightarrow> error + CapFile" where
  "init_entries cap [] self = Inr self"
| "init_entries cap (filename # cap_namelist) self =
     (case init_entry cap filename self of
        Inl e \<Rightarrow> Inl e
      | Inr self' \<Rightarrow> init_entries cap cap_namelist self')"

text \<open>The nine checks after the loop, in the source's order; the first that fails raises.\<close>

definition check_mandatory :: "CapFile \<Rightarrow> error + CapFile" where
  "check_mandatory self =
     (if component_header self = None then Inl (MissingComponent ''Header'')
      else if component_directory self = None then Inl (MissingComponent ''Directory'')
      else if component_import self = None then Inl (MissingComponent ''Import'')
      else if component_constantPool self = None then Inl (MissingComponent ''ConstantPool'')
      else if component_class self = None then Inl (MissingComponent ''Class'')
      else if component_method self = None then Inl (MissingComponent ''Method'')
      else if component_staticField self = None then Inl (MissingComponent ''StaticField'')
      else if component_referenceLocation self = None then
        Inl (MissingComponent ''ReferenceLocation'')
      else if component_descriptor self = None then Inl (MissingComponent ''Descriptor'')
      else Inr self)"

text \<open>
  \<^verbatim>\<open>CapFile(filename)\<close>, for the archive \<^verbatim>\<open>zipfile.ZipFile(filename)\<close> opens: \<open>Inr\<close> is
  the constructed object, \<open>Inl\<close> the exception, in which case there is no object.
\<close>

definition CapFile_init :: "zipfile \<Rightarrow> error + CapFile" where
  "CapFile_init cap =
     (case init_entries cap (namelist cap) CapFile_class of
        Inl e \<Rightarrow> Inl e
      | Inr self \<Rightarrow> check_mandatory self)"

text \<open>
  \<^verbatim>\<open>loadfile += component\<close> on values that are \<^verbatim>\<open>bytes\<close> or \<^verbatim>\<open>None\<close>: \<^verbatim>\<open>None\<close> on
  either side raises \<open>TypeError\<close>. \<open>truthy\<close> is the test \<^verbatim>\<open>if component:\<close>, false for
  \<^verbatim>\<open>None\<close> and for the empty byte string.
\<close>

definition iadd :: "error + bytes option \<Rightarrow> bytes option \<Rightarrow> error + bytes option" where
  "iadd loadfile component =
     (case loadfile of
        Inl e \<Rightarrow> Inl e
      | Inr None \<Rightarrow> Inl TypeError
      | Inr (Some l) \<Rightarrow> (case component of None \<Rightarrow> Inl TypeError | Some c \<Rightarrow> Inr (Some (l @ c))))"

definition truthy :: "bytes option \<Rightarrow> bool" where
  "truthy component = (case component of None \<Rightarrow> False | Some c \<Rightarrow> c \<noteq> [])"

definition get_loadfile :: "CapFile \<Rightarrow> error + string" where
  "get_loadfile self =
     (let loadfile = Inr (component_header self);
          loadfile = iadd loadfile (component_directory self);
          loadfile = iadd loadfile (component_import self);
          loadfile = (if truthy (component_applet self)
                      then iadd loadfile (component_applet self) else loadfile);
          loadfile = iadd loadfile (component_class self);
          loadfile = iadd loadfile (component_method self);
          loadfile = iadd loadfile (component_staticField self);
          loadfile = (if truthy (component_export self)
                      then iadd loadfile (component_export self) else loadfile);
          loadfile = iadd loadfile (component_constantPool self);
          loadfile = iadd loadfile (component_referenceLocation self);
          loadfile = (if truthy (component_descriptor self)
                      then iadd loadfile (component_descriptor self) else loadfile)
      in case loadfile of
           Inl e \<Rightarrow> Inl e
         | Inr None \<Rightarrow> Inl TypeError
         | Inr (Some l) \<Rightarrow> Inr (b2h l))"

text \<open>\<^verbatim>\<open>magic = header['magic'] or 0\<close> replaces a falsy magic, which is 0, by 0.\<close>

definition get_loadfile_aid :: "CapFile \<Rightarrow> error + string" where
  "get_loadfile_aid self =
     (case parse header_component_compact (component_header self) of
        Inl e \<Rightarrow> Inl e
      | Inr header \<Rightarrow>
          (let magic = (if header_magic header \<noteq> 0 then header_magic header else 0)
           in if magic \<noteq> 0xDECAFFED then Inl (InvalidMagic magic 0xDECAFFED)
              else Inr (package_AID (header_package header))))"

definition get_applet_aid :: "CapFile \<Rightarrow> int \<Rightarrow> error + string" where
  "get_applet_aid self index =
     (if component_applet self = None then Inl (MissingOptionalComponent ''Applet'')
      else
        (case parse applet_component_compact (component_applet self) of
           Inl e \<Rightarrow> Inl e
         | Inr applet \<Rightarrow>
             if index > int (applet_count applet) then
               Inl (AppletIndexOutOfRange index (applet_count applet))
             else
               (case getitem (applet_applets applet) index of
                  Inl e \<Rightarrow> Inl e
                | Inr a \<Rightarrow> Inr (applets_AID a))))"

subsection \<open>Records of an IJC stream\<close>

text \<open>
  The streams the claims about \<^verbatim>\<open>ijc_to_cap\<close> speak of are made of records: a tag and a
  payload, written as the tag byte, the payload's length as two bytes, big-endian, and
  the payload. A record is well-formed when its tag is one of 1 to 12 and its length fits
  the two bytes. \<open>entry_name p tag\<close> is the entry name under prefix \<open>p\<close> for the
  component that \<open>TAGS\<close> lists at \<open>tag\<close>, counting from 1.
\<close>

definition record_bytes :: "nat \<times> bytes \<Rightarrow> bytes" where
  "record_bytes r =
     [of_nat (fst r), of_nat (length (snd r) div 256), of_nat (length (snd r) mod 256)] @ snd r"

definition well_formed :: "nat \<times> bytes \<Rightarrow> bool" where
  "well_formed r = (1 \<le> fst r \<and> fst r \<le> 12 \<and> length (snd r) < 65536)"

definition entry_name :: "string \<Rightarrow> nat \<Rightarrow> string" where
  "entry_name p tag = p @ ''/javacard/'' @ TAGS ! (tag - 1) @ ''.cap''"

definition emitted :: "string \<Rightarrow> (nat \<times> bytes) list \<Rightarrow> zipfile" where
  "emitted p rs = map (\<lambda>r. (entry_name p (fst r), record_bytes r)) rs"



subsection \<open>A sample archive\<close>

text \<open>
  An archive as a converter writes it: a manifest, the nine mandatory components, the
  Applet and the Debug component, no Export component. Each component's body is a byte
  of its own. The Header declares the package AID A000000062; the Applet component lists
  one applet, AID A00000006201.
\<close>

definition example_cap :: zipfile where
  "example_cap =
     [(''META-INF/MANIFEST.MF'', [0x4D]),
      (''app/javacard/Header.cap'',
         [1, 0, 13, 0xDE, 0xCA, 0xFF, 0xED, 1, 2, 4, 0, 1, 5, 0xA0, 0, 0, 0, 0x62]),
      (''app/javacard/Directory.cap'', [2, 0, 1, 0x22]),
      (''app/javacard/Applet.cap'', [3, 0, 10, 1, 6, 0xA0, 0, 0, 0, 0x62, 1, 0, 8]),
      (''app/javacard/Import.cap'', [4, 0, 1, 0x44]),
      (''app/javacard/ConstantPool.cap'', [5, 0, 1, 0x55]),
      (''app/javacard/Class.cap'', [6, 0, 1, 0x66]),
      (''app/javacard/Method.cap'', [7, 0, 1, 0x77]),
      (''app/javacard/StaticField.cap'', [8, 0, 1, 0x88]),
      (''app/javacard/RefLocation.cap'', [9, 0, 1, 0x99]),
      (''app/javacard/Descriptor.cap'', [11, 0, 1, 0xBB]),
      (''app/javacard/Debug.cap'', [12, 0, 1, 0xCC])]"

definition example_CapFile :: CapFile where
  "example_CapFile =
     \<lparr>component_header =
        Some [1, 0, 13, 0xDE, 0xCA, 0xFF, 0xED, 1, 2, 4, 0, 1, 5, 0xA0, 0, 0, 0, 0x62],
      component_directory = Some [2, 0, 1, 0x22],
      component_applet = Some [3, 0, 10, 1, 6, 0xA0, 0, 0, 0, 0x62, 1, 0, 8],
      component_import = Some [4, 0, 1, 0x44],
      component_constantPool = Some [5, 0, 1, 0x55],
      component_class = Some [6, 0, 1, 0x66],
      component_method = Some [7, 0, 1, 0x77],
      component_staticField = Some [8, 0, 1, 0x88],
      component_referenceLocation = Some [9, 0, 1, 0x99],
      component_export = None,
      component_descriptor = Some [11, 0, 1, 0xBB],
      component_debug = Some [12, 0, 1, 0xCC]\<rparr>"

subsection \<open>The load order\<close>

text \<open>
  What \<^verbatim>\<open>get_loadfile\<close> is to return, said without the code's tests: the bytes of the
  components that are present, a component that is absent contributing nothing, in the
  order Header, Directory, Import, Applet, Class, Method, StaticField, Export,
  ConstantPool, ReferenceLocation, Descriptor. The Debug component is not in the list.
\<close>

definition present :: "bytes option \<Rightarrow> bytes" where
  "present component = (case component of None \<Rightarrow> [] | Some c \<Rightarrow> c)"

definition load_order :: "CapFile \<Rightarrow> bytes" where
  "load_order self =
     present (component_header self) @ present (component_directory self) @
     present (component_import self) @ present (component_applet self) @
     present (component_class self) @ present (component_method self) @
     present (component_staticField self) @ present (component_export self) @
     present (component_constantPool self) @ present (component_referenceLocation self) @
     present (component_descriptor self)"

subsection \<open>Components by their place in the table\<close>

text \<open>
  To speak of "the component's slot" for any of the twelve components, a component is
  named by its index in \<open>TAGS\<close> (its tag less one). \<open>suffix_of i\<close> is the suffix that
  selects it, the lowered name followed by \<^verbatim>\<open>.cap\<close>; \<open>slots self\<close> lists the twelve
  attributes of an object in the order of \<open>TAGS\<close>; \<open>has_entry cap i\<close> says that the
  archive has an entry whose lowered name ends in the suffix. \<open>mandatory\<close> lists the nine
  components that \<^verbatim>\<open>__init__\<close> checks, in the order and under the names of its messages.
\<close>

definition suffix_of :: "nat \<Rightarrow> string" where
  "suffix_of i = lower (TAGS ! i) @ ''.cap''"

definition slots :: "CapFile \<Rightarrow> bytes option list" where
  "slots self =
     [component_header self, component_directory self, component_applet self,
      component_import self, component_constantPool self, component_class self,
      component_method self, component_staticField self, component_referenceLocation self,
      component_export self, component_descriptor self, component_debug self]"

definition has_entry :: "zipfile \<Rightarrow> nat \<Rightarrow> bool" where
  "has_entry cap i = (\<exists>filename \<in> set (namelist cap). endswith (lower filename) (suffix_of i))"

definition mandatory :: "(nat \<times> string) list" where
  "mandatory =
     [(0, ''Header''), (1, ''Directory''), (3, ''Import''), (4, ''ConstantPool''),
      (5, ''Class''), (6, ''Method''), (7, ''StaticField''), (8, ''ReferenceLocation''),
      (10, ''Descriptor'')]"

text \<open>
  Two more archives: one that holds a Header component only, under a name in upper case
  and below two directories, beside a manifest; and one with the nine mandatory components
  of which the Descriptor is an entry of no bytes.
\<close>

definition header_only_cap :: zipfile where
  "header_only_cap = [(''FOO/javacard/Header.cap'', [1, 0, 0]), (''META-INF/MANIFEST.MF'', [0x4D])]"

definition empty_descriptor_cap :: zipfile where
  "empty_descriptor_cap =
     [(''Header.cap'', [1, 0, 0]), (''Directory.cap'', [2, 0, 0]), (''Import.cap'', [4, 0, 0]),
      (''ConstantPool.cap'', [5, 0, 0]), (''Class.cap'', [6, 0, 0]), (''Method.cap'', [7, 0, 0]),
      (''StaticField.cap'', [8, 0, 0]), (''RefLocation.cap'', [9, 0, 0]),
      (''Descriptor.cap'', [])]"

definition empty_descriptor_CapFile :: CapFile where
  "empty_descriptor_CapFile =
     \<lparr>component_header = Some [1, 0, 0], component_directory = Some [2, 0, 0],
      component_applet = None, component_import = Some [4, 0, 0],
      component_constantPool = Some [5, 0, 0], component_class = Some [6, 0, 0],
      component_method = Some [7, 0, 0], component_staticField = Some [8, 0, 0],
      component_referenceLocation = Some [9, 0, 0], component_export = None,
      component_descriptor = Some [], component_debug = None\<rparr>"

text \<open>
  What a slot is to hold once the loop of \<^verbatim>\<open>__init__\<close> is through: \<open>last_entry cap i\<close> is
  the data of the last entry of the archive whose lowered name ends in the suffix of
  component \<open>i\<close>, if there is one. An entry is \<open>selected\<close> when its lowered name ends in
  the suffix of one of the twelve components. \<open>twice_header_cap\<close> is an archive with two
  entries of the same name.
\<close>

definition last_entry :: "zipfile \<Rightarrow> nat \<Rightarrow> bytes option" where
  "last_entry cap i =
     map_option snd
       (find (\<lambda>(filename, data). endswith (lower filename) (suffix_of i)) (rev cap))"

definition selected :: "string \<times> bytes \<Rightarrow> bool" where
  "selected entry = (\<exists>i \<in> set [0..<12]. endswith (lower (fst entry)) (suffix_of i))"

definition twice_header_cap :: zipfile where
  "twice_header_cap = [(''Header.cap'', [1, 0, 0]), (''Header.cap'', [1, 0, 1, 0xAA])]"

section \<open>The IJC splitter\<close>

lemma unat_byte: "n < 256 \<Longrightarrow> unat (of_nat n :: byte) = n"
  by (simp add: unat_of_nat)

lemma unpack_record:
  assumes "fst r < 256" "length (snd r) < 65536"
  shows "struct_unpack_BH (take 3 (record_bytes r @ rest)) = Inr (fst r, length (snd r))"
proof -
  have "length (snd r) div 256 < 256" using assms by simp
  then show ?thesis using assms
    by (simp add: struct_unpack_BH_def record_bytes_def unat_byte)
qed

lemma getitem_TAGS:
  "1 \<le> tag \<Longrightarrow> tag \<le> 12 \<Longrightarrow> getitem TAGS (int tag - 1) = Inr (TAGS ! (tag - 1))"
  by (auto simp: getitem_def TAGS_def Let_def nat_diff_distrib')

lemma getitem_TAGS_above: "12 < tag \<Longrightarrow> getitem TAGS (int tag - 1) = Inl IndexError"
  by (simp add: getitem_def TAGS_def Let_def)

lemma ijc_to_cap_empty: "ijc_to_cap [] out_zip p = (out_zip, None)"
  by (simp add: ijc_to_cap.simps)

text \<open>One well-formed record at the head of the stream is written whole, and the loop goes on
  behind it.\<close>

lemma ijc_to_cap_record:
  assumes "well_formed r"
  shows "ijc_to_cap (record_bytes r @ rest) out_zip p =
         ijc_to_cap rest (out_zip @ [(entry_name p (fst r), record_bytes r)]) p"
proof -
  from assms have t: "1 \<le> fst r" "fst r \<le> 12" "fst r < 256" and l: "length (snd r) < 65536"
    by (simp_all add: well_formed_def)
  have len: "length (record_bytes r) = 3 + length (snd r)"
    by (simp add: record_bytes_def)
  have ne: "length (record_bytes r @ rest) \<noteq> 0"
    by (simp add: record_bytes_def)
  have tk: "take (3 + length (snd r)) (record_bytes r @ rest) = record_bytes r"
    and dr: "drop (3 + length (snd r)) (record_bytes r @ rest) = rest"
    by (simp_all add: len)
  show ?thesis
    by (subst ijc_to_cap.simps)
       (simp only: ne if_False unpack_record [OF t(3) l] getitem_TAGS [OF t(1) t(2)]
                   sum.case prod.case tk dr writestr_def entry_name_def)
qed

lemma ijc_to_cap_records:
  "\<forall>r \<in> set rs. well_formed r \<Longrightarrow>
   ijc_to_cap (concat (map record_bytes rs) @ rest) out_zip p =
   ijc_to_cap rest (out_zip @ emitted p rs) p"
proof (induction rs arbitrary: out_zip)
  case Nil
  then show ?case by (simp add: emitted_def)
next
  case (Cons r rs)
  from Cons.prems have wf: "well_formed r" and rest: "\<forall>r \<in> set rs. well_formed r"
    by simp_all
  show ?case
    using Cons.IH [OF rest] by (simp add: ijc_to_cap_record [OF wf] emitted_def)
qed

text \<open>The first three bytes of a stream that holds at least three.\<close>

lemma unpack_prefix:
  "3 \<le> length b \<Longrightarrow>
   struct_unpack_BH (take 3 b) = Inr (unat (b ! 0), unat (b ! 1) * 256 + unat (b ! 2))"
proof -
  assume "3 \<le> length b"
  then obtain x0 x1 x2 rest where "b = x0 # x1 # x2 # rest"
    by (cases b; cases "tl b"; cases "tl (tl b)") auto
  then show ?thesis by (simp add: struct_unpack_BH_def)
qed

text \<open>
  C5. Splitting the concatenation of N well-formed records writes exactly N entries, in
  the records' order: each entry holds the bytes of its record, under the name that the
  table gives the record's tag (after the prefix and \<^verbatim>\<open>/javacard/\<close>, before \<^verbatim>\<open>.cap\<close>),
  and the call returns without an exception.
\<close>

theorem ijc_to_cap_roundtrip:
  assumes "\<forall>r \<in> set rs. well_formed r"
  shows "ijc_to_cap (concat (map record_bytes rs)) out_zip p = (out_zip @ emitted p rs, None)"
  using ijc_to_cap_records [OF assms, of "[]" out_zip p] by (simp add: ijc_to_cap_empty)

text \<open>The stream of the single record with tag 1 and size 0: one entry of three bytes, named
  Header.\<close>

theorem ijc_to_cap_roundtrip_witness:
  "well_formed (1, []) \<and>
   ijc_to_cap [1, 0, 0] [] ''foo'' = ([(''foo/javacard/Header.cap'', [1, 0, 0])], None)"
  using ijc_to_cap_roundtrip [of "[(1, [])]" "[]" "''foo''"]
  by (simp add: well_formed_def record_bytes_def emitted_def entry_name_def TAGS_def)

text \<open>
  C6, as stated, fails for the tag 0: \<^verbatim>\<open>TAGS[tag-1]\<close> is then \<^verbatim>\<open>TAGS[-1]\<close>, the last
  name of the table, and the record is written as the Debug component.
\<close>

theorem ijc_to_cap_tag_zero_counterexample:
  "ijc_to_cap [0, 0, 0] [] ''foo'' = ([(''foo/javacard/Debug.cap'', [0, 0, 0])], None)"
  by (simp add: ijc_to_cap.simps struct_unpack_BH_def getitem_def TAGS_def writestr_def)

text \<open>
  C6, amended. When the records before it are well-formed and the stream holds at least
  three more bytes of which the first, the tag, is greater than 12, the call ends with an
  \<open>IndexError\<close> (which carries no tag): the records before are written, nothing is
  written for this one or after it.
\<close>

theorem ijc_to_cap_tag_above_12:
  assumes "\<forall>r \<in> set rs. well_formed r" and "3 \<le> length b" and "12 < unat (b ! 0)"
  shows "ijc_to_cap (concat (map record_bytes rs) @ b) out_zip p =
         (out_zip @ emitted p rs, Some IndexError)"
proof -
  from assms(2) have ne: "length b \<noteq> 0" by auto
  have "ijc_to_cap b (out_zip @ emitted p rs) p = (out_zip @ emitted p rs, Some IndexError)"
    by (subst ijc_to_cap.simps)
       (simp only: ne if_False unpack_prefix [OF assms(2)] getitem_TAGS_above [OF assms(3)]
                   sum.case prod.case)
  then show ?thesis by (simp only: ijc_to_cap_records [OF assms(1)])
qed

theorem ijc_to_cap_tag_above_12_witness:
  "well_formed (1, [0xAA]) \<and> 12 < unat ([13, 0, 0 :: byte] ! 0) \<and>
   ijc_to_cap [1, 0, 1, 0xAA, 13, 0, 0] [] ''foo'' =
     ([(''foo/javacard/Header.cap'', [1, 0, 1, 0xAA])], Some IndexError)"
  using ijc_to_cap_tag_above_12 [of "[(1, [0xAA])]" "[13, 0, 0]" "[]" "''foo''"]
  by (simp add: well_formed_def record_bytes_def emitted_def entry_name_def TAGS_def)

text \<open>
  C7, as stated, fails: a record that declares five payload bytes where one is left is
  written short, and the call returns without an exception.
\<close>

theorem ijc_to_cap_truncated_counterexample:
  "ijc_to_cap [1, 0, 5, 0xAA] [] ''foo'' =
     ([(''foo/javacard/Header.cap'', [1, 0, 5, 0xAA])], None)"
  by (simp add: ijc_to_cap.simps struct_unpack_BH_def getitem_def TAGS_def writestr_def)

text \<open>
  C7, amended. When the records before it are well-formed and the last record has its
  three-byte prefix, a tag from 1 to 12 and a declared size that reaches past the end of
  the stream, the call does not fail: it writes the bytes that are left as one short
  entry under the tag's name, after the entries of the records before, and returns.
\<close>

theorem ijc_to_cap_short_last_record:
  assumes "\<forall>r \<in> set rs. well_formed r" and "3 \<le> length b"
    and "1 \<le> unat (b ! 0)" and "unat (b ! 0) \<le> 12"
    and "length b < 3 + (unat (b ! 1) * 256 + unat (b ! 2))"
  shows "ijc_to_cap (concat (map record_bytes rs) @ b) out_zip p =
         (out_zip @ emitted p rs @ [(entry_name p (unat (b ! 0)), b)], None)"
proof -
  from assms(2) have ne: "length b \<noteq> 0" by auto
  let ?n = "3 + (unat (b ! 1) * 256 + unat (b ! 2))"
  from assms(5) have tk: "take ?n b = b" and dr: "drop ?n b = []" by simp_all
  have "ijc_to_cap b (out_zip @ emitted p rs) p =
        ((out_zip @ emitted p rs) @ [(entry_name p (unat (b ! 0)), b)], None)"
    by (subst ijc_to_cap.simps)
       (simp only: ne if_False unpack_prefix [OF assms(2)] getitem_TAGS [OF assms(3) assms(4)]
                   sum.case prod.case tk dr writestr_def entry_name_def ijc_to_cap_empty)
  then show ?thesis by (simp only: ijc_to_cap_records [OF assms(1)] append_assoc)
qed

theorem ijc_to_cap_short_last_record_witness:
  "well_formed (2, []) \<and> length [1, 0, 5, 0xAA :: byte] < 3 + (0 * 256 + 5) \<and>
   ijc_to_cap [2, 0, 0, 1, 0, 5, 0xAA] [] ''foo'' =
     ([(''foo/javacard/Directory.cap'', [2, 0, 0]),
       (''foo/javacard/Header.cap'', [1, 0, 5, 0xAA])], None)"
  using ijc_to_cap_short_last_record [of "[(2, [])]" "[1, 0, 5, 0xAA]" "[]" "''foo''"]
  by (simp add: well_formed_def record_bytes_def emitted_def entry_name_def TAGS_def)

section \<open>The accessors of a CapFile\<close>

lemmas parser_defs = then_parse_def parsed_def Int8ub_def Int16ub_def Int32ub_def LV_def
  COptional_def parse_def package_struct_def header_through_package_def
  header_component_compact_def applet_entry_struct_def applet_component_compact_def

lemma CapFile_init_example: "CapFile_init example_cap = Inr example_CapFile"
  by code_simp

lemma parse_example_header:
  "parse header_component_compact (component_header example_CapFile) =
     Inr \<lparr>header_tag = 1, header_size = 13, header_magic = 0xDECAFFED,
          header_minor_version = 1, header_major_version = 2, header_flags = 4,
          header_package = \<lparr>package_minor_version = 0, package_major_version = 1,
                             package_AID = ''a000000062''\<rparr>,
          header_package_name = None\<rparr>"
  by (simp add: example_CapFile_def parser_defs b2h_def hexdigit_def)

lemma parse_example_applet:
  "parse applet_component_compact (component_applet example_CapFile) =
     Inr \<lparr>applet_tag = 3, applet_size = 10, applet_count = 1,
          applet_applets = [\<lparr>applets_AID = ''a00000006201'',
                              applets_install_method_offset = 8\<rparr>]\<rparr>"
  by (simp add: example_CapFile_def parser_defs b2h_def hexdigit_def)

text \<open>An object that \<^verbatim>\<open>__init__\<close> returned holds all nine mandatory components.\<close>

lemma check_mandatory_Inr:
  assumes "check_mandatory self = Inr self'"
  shows "self' = self"
    and "component_header self \<noteq> None" and "component_directory self \<noteq> None"
    and "component_import self \<noteq> None" and "component_constantPool self \<noteq> None"
    and "component_class self \<noteq> None" and "component_method self \<noteq> None"
    and "component_staticField self \<noteq> None" and "component_referenceLocation self \<noteq> None"
    and "component_descriptor self \<noteq> None"
  using assms unfolding check_mandatory_def by (simp_all split: if_splits)

lemma CapFile_init_mandatory_present:
  assumes "CapFile_init cap = Inr self"
  shows "component_header self \<noteq> None" and "component_directory self \<noteq> None"
    and "component_import self \<noteq> None" and "component_constantPool self \<noteq> None"
    and "component_class self \<noteq> None" and "component_method self \<noteq> None"
    and "component_staticField self \<noteq> None" and "component_referenceLocation self \<noteq> None"
    and "component_descriptor self \<noteq> None"
proof -
  from assms obtain s where "check_mandatory s = Inr self"
    by (auto simp: CapFile_init_def split: sum.splits)
  from check_mandatory_Inr [OF this]
  show "component_header self \<noteq> None" and "component_directory self \<noteq> None"
    and "component_import self \<noteq> None" and "component_constantPool self \<noteq> None"
    and "component_class self \<noteq> None" and "component_method self \<noteq> None"
    and "component_staticField self \<noteq> None" and "component_referenceLocation self \<noteq> None"
    and "component_descriptor self \<noteq> None"
    by simp_all
qed

text \<open>\<^verbatim>\<open>if component: loadfile += component\<close> appends what is present of the component.\<close>

lemma iadd_Some: "iadd (Inr (Some l)) (Some c) = Inr (Some (l @ c))"
  by (simp add: iadd_def)

lemma iadd_if_truthy:
  "(if truthy component then iadd (Inr (Some l)) component else Inr (Some l)) =
   Inr (Some (l @ present component))"
  by (cases component) (simp_all add: truthy_def iadd_def present_def)

lemma get_loadfile_mandatory:
  assumes "component_header self = Some h" and "component_directory self = Some d"
    and "component_import self = Some i" and "component_constantPool self = Some cp"
    and "component_class self = Some c" and "component_method self = Some m"
    and "component_staticField self = Some sf" and "component_referenceLocation self = Some rl"
  shows "get_loadfile self = Inr (b2h (load_order self))"
  by (cases "component_applet self"; cases "component_export self";
      cases "component_descriptor self")
     (simp_all add: get_loadfile_def load_order_def iadd_def truthy_def present_def Let_def assms)

lemma get_loadfile_constructed:
  assumes "CapFile_init cap = Inr self"
  shows "get_loadfile self = Inr (b2h (load_order self))"
proof -
  from CapFile_init_mandatory_present [OF assms] obtain h d i cp c m sf rl where
    "component_header self = Some h" "component_directory self = Some d"
    "component_import self = Some i" "component_constantPool self = Some cp"
    "component_class self = Some c" "component_method self = Some m"
    "component_staticField self = Some sf" "component_referenceLocation self = Some rl"
    by auto
  then show ?thesis by (rule get_loadfile_mandatory)
qed

text \<open>The Debug component is not read: an object with another Debug component is
  constructed from an archive as well, and has the same load order.\<close>

lemma get_loadfile_debug:
  assumes "component_header self \<noteq> None" and "component_directory self \<noteq> None"
    and "component_import self \<noteq> None" and "component_constantPool self \<noteq> None"
    and "component_class self \<noteq> None" and "component_method self \<noteq> None"
    and "component_staticField self \<noteq> None" and "component_referenceLocation self \<noteq> None"
  shows "get_loadfile (self\<lparr>component_debug := debug\<rparr>) = get_loadfile self"
proof -
  from assms obtain h d i cp c m sf rl where s:
    "component_header self = Some h" "component_directory self = Some d"
    "component_import self = Some i" "component_constantPool self = Some cp"
    "component_class self = Some c" "component_method self = Some m"
    "component_staticField self = Some sf" "component_referenceLocation self = Some rl"
    by auto
  have "get_loadfile (self\<lparr>component_debug := debug\<rparr>) =
        Inr (b2h (load_order (self\<lparr>component_debug := debug\<rparr>)))"
    by (rule get_loadfile_mandatory) (simp_all add: s)
  moreover have "load_order (self\<lparr>component_debug := debug\<rparr>) = load_order self"
    by (simp add: load_order_def)
  moreover have "get_loadfile self = Inr (b2h (load_order self))"
    by (rule get_loadfile_mandatory [OF s])
  ultimately show ?thesis by simp
qed

text \<open>
  C1. For an object that \<^verbatim>\<open>__init__\<close> returned, \<^verbatim>\<open>get_loadfile\<close> returns (rendered by
  \<^verbatim>\<open>b2h\<close>) the concatenation of the present components in the order Header, Directory,
  Import, Applet, Class, Method, StaticField, Export, ConstantPool, ReferenceLocation,
  Descriptor, and whatever the Debug component holds does not change the result.
\<close>

theorem get_loadfile_load_order:
  assumes "CapFile_init cap = Inr self"
  shows "get_loadfile self = Inr (b2h (load_order self)) \<and>
         get_loadfile (self\<lparr>component_debug := debug\<rparr>) = get_loadfile self"
  using get_loadfile_constructed [OF assms]
    get_loadfile_debug [OF CapFile_init_mandatory_present(1-8) [OF assms], of debug]
  by simp

theorem get_loadfile_load_order_witness:
  "CapFile_init example_cap = Inr example_CapFile \<and>
   get_loadfile example_CapFile =
     Inr (b2h ([1, 0, 13, 0xDE, 0xCA, 0xFF, 0xED, 1, 2, 4, 0, 1, 5, 0xA0, 0, 0, 0, 0x62] @
               [2, 0, 1, 0x22] @ [4, 0, 1, 0x44] @
               [3, 0, 10, 1, 6, 0xA0, 0, 0, 0, 0x62, 1, 0, 8] @
               [6, 0, 1, 0x66] @ [7, 0, 1, 0x77] @ [8, 0, 1, 0x88] @
               [5, 0, 1, 0x55] @ [9, 0, 1, 0x99] @ [11, 0, 1, 0xBB])) \<and>
   get_loadfile (example_CapFile\<lparr>component_debug := None\<rparr>) = get_loadfile example_CapFile"
  using get_loadfile_load_order [OF CapFile_init_example, of None]
  by (simp add: CapFile_init_example load_order_def present_def example_CapFile_def)

text \<open>
  C4. Whenever the Header component of an object decodes, \<^verbatim>\<open>get_loadfile_aid\<close>
  returns the AID of the package sub-record if the magic is 0xDECAFFED, and otherwise
  raises the error that reports the magic found and the constant 0xDECAFFED; no other
  value is returned for a wrong magic. This holds for every object, so for every one that
  \<^verbatim>\<open>__init__\<close> returned.
\<close>

theorem get_loadfile_aid_magic:
  assumes "parse header_component_compact (component_header self) = Inr header"
  shows "get_loadfile_aid self =
           (if header_magic header = 0xDECAFFED
            then Inr (package_AID (header_package header))
            else Inl (InvalidMagic (header_magic header) 0xDECAFFED))"
  by (simp add: get_loadfile_aid_def assms Let_def)

lemma parse_wrong_magic:
  "parse header_component_compact
     (Some [1, 0, 13, 0xCA, 0xFE, 0xBA, 0xBE, 1, 2, 4, 0, 1, 5, 0xA0, 0, 0, 0, 0x62]) =
     Inr \<lparr>header_tag = 1, header_size = 13, header_magic = 0xCAFEBABE,
          header_minor_version = 1, header_major_version = 2, header_flags = 4,
          header_package = \<lparr>package_minor_version = 0, package_major_version = 1,
                             package_AID = ''a000000062''\<rparr>,
          header_package_name = None\<rparr>"
  by (simp add: parser_defs b2h_def hexdigit_def)

theorem get_loadfile_aid_magic_witness:
  "CapFile_init example_cap = Inr example_CapFile \<and>
   get_loadfile_aid example_CapFile = Inr ''a000000062'' \<and>
   get_loadfile_aid
     (example_CapFile\<lparr>component_header :=
        Some [1, 0, 13, 0xCA, 0xFE, 0xBA, 0xBE, 1, 2, 4, 0, 1, 5, 0xA0, 0, 0, 0, 0x62]\<rparr>) =
     Inl (InvalidMagic 0xCAFEBABE 0xDECAFFED)"
proof -
  have "parse header_component_compact
          (component_header (example_CapFile\<lparr>component_header :=
             Some [1, 0, 13, 0xCA, 0xFE, 0xBA, 0xBE, 1, 2, 4, 0, 1, 5, 0xA0, 0, 0, 0, 0x62]\<rparr>)) =
        Inr \<lparr>header_tag = 1, header_size = 13, header_magic = 0xCAFEBABE,
             header_minor_version = 1, header_major_version = 2, header_flags = 4,
             header_package = \<lparr>package_minor_version = 0, package_major_version = 1,
                                package_AID = ''a000000062''\<rparr>,
             header_package_name = None\<rparr>"
    using parse_wrong_magic by simp
  from get_loadfile_aid_magic [OF parse_example_header] get_loadfile_aid_magic [OF this]
  show ?thesis by (simp add: CapFile_init_example)
qed

text \<open>
  The two cases of \<^verbatim>\<open>get_applet_aid\<close> that are as C3 says, and the one that is not, for
  any object whose Applet component decodes: an index from 0 below the count returns the
  AID at that index, an index above the count raises the error that reports index and
  count, and the index that equals the count raises \<open>IndexError\<close>.
\<close>

lemma Array_length: "Array n subcon s = Inr (vs, rest) \<Longrightarrow> length vs = n"
  by (induction n arbitrary: s vs rest) (auto split: sum.splits)

lemma applet_applets_length:
  assumes "parse applet_component_compact data = Inr a"
  shows "length (applet_applets a) = applet_count a"
proof -
  from assms obtain r where
    "applet_component_compact (case data of None \<Rightarrow> [] | Some d \<Rightarrow> d) = Inr (a, r)"
    by (auto simp: parse_def split: sum.splits)
  then obtain n vs s where "Array n applet_entry_struct s = Inr (vs, r)"
    and "applet_count a = n" and "applet_applets a = vs"
    by (auto simp: applet_component_compact_def then_parse_def parsed_def split: sum.splits)
  with Array_length [of n applet_entry_struct s vs r] show ?thesis by simp
qed

lemma get_applet_aid_cases:
  assumes "component_applet self = Some data"
    and "parse applet_component_compact (Some data) = Inr a"
  shows "0 \<le> index \<Longrightarrow> index < int (applet_count a) \<Longrightarrow>
           get_applet_aid self index = Inr (applets_AID (applet_applets a ! nat index))"
    and "int (applet_count a) < index \<Longrightarrow>
           get_applet_aid self index = Inl (AppletIndexOutOfRange index (applet_count a))"
    and "index = int (applet_count a) \<Longrightarrow> get_applet_aid self index = Inl IndexError"
  using applet_applets_length [OF assms(2)]
  by (simp_all add: get_applet_aid_def assms getitem_def)

text \<open>
  C3 fails where the index equals the count. The sample archive's Applet component
  lists one applet; for index 1 the test \<^verbatim>\<open>index > applet['count']\<close> is false and
  the subscript \<^verbatim>\<open>applet['applets'][1]\<close> raises \<open>IndexError\<close>, not the error that
  reports the index and the count.
\<close>

theorem get_applet_aid_index_eq_count:
  "CapFile_init example_cap = Inr example_CapFile \<and>
   map_sum id applet_count (parse applet_component_compact (component_applet example_CapFile))
     = Inr 1 \<and>
   get_applet_aid example_CapFile 1 = Inl IndexError"
  by (simp add: CapFile_init_example get_applet_aid_def parse_example_applet getitem_def)
     (simp add: example_CapFile_def)

text \<open>The bytes that the fields up to \<^verbatim>\<open>package\<close> leave are where \<^verbatim>\<open>package_name\<close> is
  looked for; it is decoded when they hold a whole length-prefixed field.\<close>

lemma LV_Inr_iff: "(\<exists>v r. LV s = Inr (v, r)) = (s \<noteq> [] \<and> unat (hd s) \<le> length (tl s))"
  by (cases s) (auto simp: LV_def then_parse_def Int8ub_def)

lemma header_component_compact_eq:
  "header_component_compact bs = Inr (header, r) \<Longrightarrow>
   \<exists>fields rest. header_through_package bs = Inr (fields, rest) \<and>
     (header_package_name header \<noteq> None) = (\<exists>v r. LV rest = Inr (v, r))"
  unfolding header_component_compact_def then_parse_def [of header_through_package]
  by (auto simp: then_parse_def COptional_def parsed_def split: sum.splits prod.splits)

text \<open>
  C9, as stated, fails: after the package sub-record of this Header two bytes are left,
  a length byte 5 and one byte more. A length-prefixed field cannot be read from them,
  the decoder accepts the Header all the same, and \<^verbatim>\<open>package_name\<close> is absent.
\<close>

theorem header_package_name_counterexample:
  "header_through_package
     [1, 0, 15, 0xDE, 0xCA, 0xFF, 0xED, 1, 2, 4, 0, 1, 5, 0xA0, 0, 0, 0, 0x62, 5, 0x41] =
     Inr ((1, 15, 0xDECAFFED, 1, 2, 4,
           \<lparr>package_minor_version = 0, package_major_version = 1,
            package_AID = ''a000000062''\<rparr>), [5, 0x41]) \<and>
   parse header_component_compact
     (Some [1, 0, 15, 0xDE, 0xCA, 0xFF, 0xED, 1, 2, 4, 0, 1, 5, 0xA0, 0, 0, 0, 0x62, 5, 0x41]) =
     Inr \<lparr>header_tag = 1, header_size = 15, header_magic = 0xDECAFFED,
          header_minor_version = 1, header_major_version = 2, header_flags = 4,
          header_package = \<lparr>package_minor_version = 0, package_major_version = 1,
                             package_AID = ''a000000062''\<rparr>,
          header_package_name = None\<rparr>"
  by (simp add: parser_defs b2h_def hexdigit_def)

text \<open>
  C9, amended. For every Header byte sequence that the decoder accepts,
  \<^verbatim>\<open>package_name\<close> is present if and only if the bytes left after the package
  sub-record hold a whole length-prefixed field: at least the length byte, and after it
  at least as many bytes as it says. No flag bit enters.
\<close>

theorem header_package_name_present:
  assumes "parse header_component_compact (Some bs) = Inr header"
  shows "\<exists>fields rest. header_through_package bs = Inr (fields, rest) \<and>
           (header_package_name header \<noteq> None) =
           (rest \<noteq> [] \<and> unat (hd rest) \<le> length (tl rest))"
proof -
  from assms obtain r where "header_component_compact bs = Inr (header, r)"
    by (auto simp: parse_def split: sum.splits)
  from header_component_compact_eq [OF this] show ?thesis
    by (simp only: LV_Inr_iff)
qed

theorem header_package_name_present_witness:
  "parse header_component_compact
     (Some [1, 0, 16, 0xDE, 0xCA, 0xFF, 0xED, 1, 2, 4, 0, 1, 5, 0xA0, 0, 0, 0, 0x62, 2, 0x41, 0x42]) =
     Inr \<lparr>header_tag = 1, header_size = 16, header_magic = 0xDECAFFED,
          header_minor_version = 1, header_major_version = 2, header_flags = 4,
          header_package = \<lparr>package_minor_version = 0, package_major_version = 1,
                             package_AID = ''a000000062''\<rparr>,
          header_package_name = Some ''4142''\<rparr> \<and>
   (\<exists>fields rest.
      header_through_package
        [1, 0, 16, 0xDE, 0xCA, 0xFF, 0xED, 1, 2, 4, 0, 1, 5, 0xA0, 0, 0, 0, 0x62, 2, 0x41, 0x42] =
      Inr (fields, rest) \<and>
      (Some ''4142'' \<noteq> (None :: string option)) =
      (rest \<noteq> [] \<and> unat (hd rest) \<le> length (tl rest)))"
proof -
  have p: "parse header_component_compact
     (Some [1, 0, 16, 0xDE, 0xCA, 0xFF, 0xED, 1, 2, 4, 0, 1, 5, 0xA0, 0, 0, 0, 0x62, 2, 0x41, 0x42]) =
     Inr \<lparr>header_tag = 1, header_size = 16, header_magic = 0xDECAFFED,
          header_minor_version = 1, header_major_version = 2, header_flags = 4,
          header_package = \<lparr>package_minor_version = 0, package_major_version = 1,
                             package_AID = ''a000000062''\<rparr>,
          header_package_name = Some ''4142''\<rparr>"
    by (simp add: parser_defs b2h_def hexdigit_def)
  from header_package_name_present [OF p] p show ?thesis
    by (simp only: header.simps)
qed

section \<open>Construction of a CapFile\<close>

lemma suffix_of_simps:
  "suffix_of 0 = ''header.cap''" "suffix_of 1 = ''directory.cap''"
  "suffix_of 2 = ''applet.cap''" "suffix_of 3 = ''import.cap''"
  "suffix_of 4 = ''constantpool.cap''" "suffix_of 5 = ''class.cap''"
  "suffix_of 6 = ''method.cap''" "suffix_of 7 = ''staticfield.cap''"
  "suffix_of 8 = ''reflocation.cap''" "suffix_of 9 = ''export.cap''"
  "suffix_of 10 = ''descriptor.cap''" "suffix_of 11 = ''debug.cap''"
  "suffix_of (Suc 0) = ''directory.cap''"
  by (simp_all add: suffix_of_def TAGS_def lower_def lower_char_def)

lemma below_12:
  "i < 12 \<Longrightarrow>
   i = 0 \<or> i = 1 \<or> i = 2 \<or> i = 3 \<or> i = 4 \<or> i = 5 \<or> i = 6 \<or> i = 7 \<or> i = 8 \<or> i = 9 \<or>
   i = 10 \<or> i = (11 :: nat)"
  by arith

text \<open>Two suffixes of one string: the shorter is a suffix of the longer.\<close>

lemma endswith_both:
  assumes "endswith s a" and "endswith s b" and "length a \<le> length b"
  shows "endswith b a"
proof -
  from assms(1) have a: "a = drop (length s - length a) s" and la: "length a \<le> length s"
    by (simp_all add: endswith_def)
  from assms(2) have b: "b = drop (length s - length b) s" and lb: "length b \<le> length s"
    by (simp_all add: endswith_def)
  have "drop (length b - length a) b = drop (length b - length a) (drop (length s - length b) s)"
    using b by simp
  also have "\<dots> = drop (length s - length a) s"
    using assms(3) lb by simp
  finally have "drop (length b - length a) b = a" using a by simp
  with assms(3) show ?thesis by (simp add: endswith_def)
qed

text \<open>No suffix of the chain ends in another, so a name matches at most one branch.\<close>

lemma suffixes_apart:
  "list_all (\<lambda>i. list_all (\<lambda>j. i = j \<or> \<not> endswith (suffix_of i) (suffix_of j)) [0..<12]) [0..<12]"
  by code_simp

lemma suffix_excl:
  assumes "i < 12" and "j < 12" and "i \<noteq> j" and "endswith s (suffix_of i)"
  shows "\<not> endswith s (suffix_of j)"
proof
  assume j: "endswith s (suffix_of j)"
  from suffixes_apart
  have "\<forall>i<12. \<forall>j<12. i = j \<or> \<not> endswith (suffix_of i) (suffix_of j)"
    by (simp add: list_all_iff)
  with assms(1-3) have "\<not> endswith (suffix_of i) (suffix_of j)"
    and "\<not> endswith (suffix_of j) (suffix_of i)"
    by blast+
  moreover have "endswith (suffix_of i) (suffix_of j) \<or> endswith (suffix_of j) (suffix_of i)"
    using endswith_both [OF assms(4) j] endswith_both [OF j assms(4)] by linarith
  ultimately show False by simp
qed

lemma length_slots: "length (slots self) = 12"
  by (simp add: slots_def)

lemma zip_read_namelist:
  assumes "filename \<in> set (namelist cap)"
  shows "\<exists>data. zip_read cap filename = Inr data \<and> (filename, data) \<in> set cap"
proof -
  from assms have "filename \<in> fst ` set (rev cap)" by (simp add: namelist_def)
  then obtain data where d: "map_of (rev cap) filename = Some data"
    by (cases "map_of (rev cap) filename") (auto simp: map_of_eq_None_iff)
  from map_of_SomeD [OF d] have "(filename, data) \<in> set cap" by simp
  with d show ?thesis by (simp add: zip_read_def)
qed

text \<open>A name that ends in the suffix of a component is stored in that component's slot, and
  in no other.\<close>

lemma init_entry_match:
  assumes "i < 12" and "endswith (lower filename) (suffix_of i)"
    and "zip_read cap filename = Inr data"
  shows "\<exists>self'. init_entry cap filename self = Inr self' \<and>
           slots self' = (slots self)[i := Some data]"
proof -
  have ne: "\<not> endswith (lower filename) (suffix_of j)" if "j < 12" "j \<noteq> i" for j
    using suffix_excl [OF assms(1) that(1) _ assms(2)] that(2) by blast
  show ?thesis
    using below_12 [OF assms(1)] assms(2) ne [of 0] ne [of 1] ne [of 2] ne [of 3] ne [of 4]
      ne [of 5] ne [of 6] ne [of 7] ne [of 8] ne [of 9] ne [of 10] ne [of 11]
    by - (elim disjE;
          simp add: suffix_of_simps init_entry_def assign_def slots_def assms(3))
qed

lemma init_entry_nomatch:
  assumes "\<And>i. i < 12 \<Longrightarrow> \<not> endswith (lower filename) (suffix_of i)"
  shows "init_entry cap filename self = Inr self"
  using assms [of 0] assms [of 1] assms [of 2] assms [of 3] assms [of 4] assms [of 5]
    assms [of 6] assms [of 7] assms [of 8] assms [of 9] assms [of 10] assms [of 11]
  by (simp add: suffix_of_simps init_entry_def)

text \<open>
  One iteration, slot by slot: a slot is empty afterwards when it was empty and the name
  does not select it, and what it holds afterwards it held before or is the data of this
  entry.
\<close>

lemma init_entry_step:
  assumes "zip_read cap filename = Inr data"
  shows "\<exists>self'. init_entry cap filename self = Inr self' \<and>
           (\<forall>i<12. (slots self' ! i = None) =
                      (slots self ! i = None \<and> \<not> endswith (lower filename) (suffix_of i)) \<and>
                    (\<forall>d. slots self' ! i = Some d \<longrightarrow>
                      slots self ! i = Some d \<or>
                      (d = data \<and> endswith (lower filename) (suffix_of i))))"
proof (cases "\<exists>i<12. endswith (lower filename) (suffix_of i)")
  case True
  then obtain i where i: "i < 12" "endswith (lower filename) (suffix_of i)" by blast
  from init_entry_match [OF i assms] obtain s1 where
    s1: "init_entry cap filename self = Inr s1" "slots s1 = (slots self)[i := Some data]"
    by blast
  have "(slots s1 ! k = None) =
          (slots self ! k = None \<and> \<not> endswith (lower filename) (suffix_of k)) \<and>
        (\<forall>d. slots s1 ! k = Some d \<longrightarrow>
          slots self ! k = Some d \<or> (d = data \<and> endswith (lower filename) (suffix_of k)))"
    if k: "k < 12" for k
  proof (cases "k = i")
    case True
    with i s1(2) show ?thesis by (simp add: length_slots)
  next
    case False
    with suffix_excl [OF i(1) k _ i(2)] have "\<not> endswith (lower filename) (suffix_of k)"
      by blast
    with False s1(2) show ?thesis by simp
  qed
  with s1(1) show ?thesis by blast
next
  case False
  then have "init_entry cap filename self = Inr self"
    by (intro init_entry_nomatch) blast
  with False show ?thesis by auto
qed

text \<open>The loop over the names of the archive never raises; afterwards a slot is empty when
  it was empty before and no name selects it, and what it holds is what it held or the data
  of an entry whose name selects it.\<close>

lemma init_entries_slots:
  assumes "set ns \<subseteq> set (namelist cap)"
  shows "\<exists>self'. init_entries cap ns self = Inr self' \<and>
           (\<forall>i<12. (slots self' ! i = None) =
                      (slots self ! i = None \<and>
                       (\<forall>fn \<in> set ns. \<not> endswith (lower fn) (suffix_of i))) \<and>
                    (\<forall>d. slots self' ! i = Some d \<longrightarrow>
                      slots self ! i = Some d \<or>
                      (\<exists>fn. (fn, d) \<in> set cap \<and> endswith (lower fn) (suffix_of i))))"
  using assms
proof (induction ns arbitrary: self)
  case Nil
  then show ?case by simp
next
  case (Cons fn ns)
  from Cons.prems have fn: "fn \<in> set (namelist cap)" and ns: "set ns \<subseteq> set (namelist cap)"
    by simp_all
  from zip_read_namelist [OF fn] obtain data where
    rd: "zip_read cap fn = Inr data" and mem: "(fn, data) \<in> set cap" by blast
  from init_entry_step [OF rd, of self] obtain s1 where
    e: "init_entry cap fn self = Inr s1" and
    s1: "\<And>i. i < 12 \<Longrightarrow>
           (slots s1 ! i = None) =
             (slots self ! i = None \<and> \<not> endswith (lower fn) (suffix_of i)) \<and>
           (\<forall>d. slots s1 ! i = Some d \<longrightarrow>
             slots self ! i = Some d \<or> (d = data \<and> endswith (lower fn) (suffix_of i)))"
    by blast
  from Cons.IH [OF ns, of s1] obtain s2 where
    l: "init_entries cap ns s1 = Inr s2" and
    s2: "\<And>i. i < 12 \<Longrightarrow>
           (slots s2 ! i = None) =
             (slots s1 ! i = None \<and> (\<forall>fn \<in> set ns. \<not> endswith (lower fn) (suffix_of i))) \<and>
           (\<forall>d. slots s2 ! i = Some d \<longrightarrow>
             slots s1 ! i = Some d \<or>
             (\<exists>fn. (fn, d) \<in> set cap \<and> endswith (lower fn) (suffix_of i)))"
    by blast
  have "(slots s2 ! i = None) =
          (slots self ! i = None \<and>
           (\<forall>f \<in> set (fn # ns). \<not> endswith (lower f) (suffix_of i))) \<and>
        (\<forall>d. slots s2 ! i = Some d \<longrightarrow>
          slots self ! i = Some d \<or>
          (\<exists>f. (f, d) \<in> set cap \<and> endswith (lower f) (suffix_of i)))"
    if i: "i < 12" for i
    using s1 [OF i] s2 [OF i] mem by (simp; blast)
  moreover have "init_entries cap (fn # ns) self = Inr s2" by (simp add: e l)
  ultimately show ?case by blast
qed

lemma slots_CapFile_class: "i < 12 \<Longrightarrow> slots CapFile_class ! i = None"
  by (drule below_12) (elim disjE; simp add: slots_def CapFile_class_def)

text \<open>The object as the loop leaves it, before the mandatory components are checked.\<close>

lemma init_entries_namelist:
  "\<exists>self. init_entries cap (namelist cap) CapFile_class = Inr self \<and>
     (\<forall>i<12. (slots self ! i = None) = (\<not> has_entry cap i) \<and>
              (\<forall>d. slots self ! i = Some d \<longrightarrow>
                 (\<exists>fn. (fn, d) \<in> set cap \<and> endswith (lower fn) (suffix_of i))))"
proof -
  from init_entries_slots [OF subset_refl, of cap CapFile_class] obtain self where
    "init_entries cap (namelist cap) CapFile_class = Inr self" and
    "\<And>i. i < 12 \<Longrightarrow>
       (slots self ! i = None) =
         (slots CapFile_class ! i = None \<and>
          (\<forall>fn \<in> set (namelist cap). \<not> endswith (lower fn) (suffix_of i))) \<and>
       (\<forall>d. slots self ! i = Some d \<longrightarrow>
         slots CapFile_class ! i = Some d \<or>
         (\<exists>fn. (fn, d) \<in> set cap \<and> endswith (lower fn) (suffix_of i)))"
    by blast
  then show ?thesis
    by (intro exI [of _ self]) (simp add: slots_CapFile_class has_entry_def)
qed

text \<open>The whole of \<^verbatim>\<open>__init__\<close>: the first mandatory component without an entry is the one
  reported; with an entry for each of the nine the object is returned.\<close>

lemma CapFile_init_cases:
  "\<exists>self.
     (\<forall>i<12. (slots self ! i = None) = (\<not> has_entry cap i) \<and>
              (\<forall>d. slots self ! i = Some d \<longrightarrow>
                 (\<exists>fn. (fn, d) \<in> set cap \<and> endswith (lower fn) (suffix_of i)))) \<and>
     CapFile_init cap =
       (if \<not> has_entry cap 0 then Inl (MissingComponent ''Header'')
        else if \<not> has_entry cap 1 then Inl (MissingComponent ''Directory'')
        else if \<not> has_entry cap 3 then Inl (MissingComponent ''Import'')
        else if \<not> has_entry cap 4 then Inl (MissingComponent ''ConstantPool'')
        else if \<not> has_entry cap 5 then Inl (MissingComponent ''Class'')
        else if \<not> has_entry cap 6 then Inl (MissingComponent ''Method'')
        else if \<not> has_entry cap 7 then Inl (MissingComponent ''StaticField'')
        else if \<not> has_entry cap 8 then Inl (MissingComponent ''ReferenceLocation'')
        else if \<not> has_entry cap 10 then Inl (MissingComponent ''Descriptor'')
        else Inr self)"
proof -
  from init_entries_namelist [of cap] obtain self where
    l: "init_entries cap (namelist cap) CapFile_class = Inr self" and
    s: "\<forall>i<12. (slots self ! i = None) = (\<not> has_entry cap i) \<and>
              (\<forall>d. slots self ! i = Some d \<longrightarrow>
                 (\<exists>fn. (fn, d) \<in> set cap \<and> endswith (lower fn) (suffix_of i)))"
    by blast
  from s have n: "(slots self ! i = None) = (\<not> has_entry cap i)" if "i < 12" for i
    using that by blast
  have f: "(component_header self = None) = (\<not> has_entry cap 0)"
    "(component_directory self = None) = (\<not> has_entry cap 1)"
    "(component_import self = None) = (\<not> has_entry cap 3)"
    "(component_constantPool self = None) = (\<not> has_entry cap 4)"
    "(component_class self = None) = (\<not> has_entry cap 5)"
    "(component_method self = None) = (\<not> has_entry cap 6)"
    "(component_staticField self = None) = (\<not> has_entry cap 7)"
    "(component_referenceLocation self = None) = (\<not> has_entry cap 8)"
    "(component_descriptor self = None) = (\<not> has_entry cap 10)"
    using n [of 0] n [of 1] n [of 3] n [of 4] n [of 5] n [of 6] n [of 7] n [of 8] n [of 10]
    by (simp_all add: slots_def)
  have "CapFile_init cap = check_mandatory self"
    by (simp add: CapFile_init_def l)
  then have "CapFile_init cap =
       (if \<not> has_entry cap 0 then Inl (MissingComponent ''Header'')
        else if \<not> has_entry cap 1 then Inl (MissingComponent ''Directory'')
        else if \<not> has_entry cap 3 then Inl (MissingComponent ''Import'')
        else if \<not> has_entry cap 4 then Inl (MissingComponent ''ConstantPool'')
        else if \<not> has_entry cap 5 then Inl (MissingComponent ''Class'')
        else if \<not> has_entry cap 6 then Inl (MissingComponent ''Method'')
        else if \<not> has_entry cap 7 then Inl (MissingComponent ''StaticField'')
        else if \<not> has_entry cap 8 then Inl (MissingComponent ''ReferenceLocation'')
        else if \<not> has_entry cap 10 then Inl (MissingComponent ''Descriptor'')
        else Inr self)"
    by (simp only: check_mandatory_def f)
  with s show ?thesis by (intro exI [of _ self] conjI)
qed

text \<open>One iteration, exactly: the slot that the name selects takes the data read, every
  other slot stays.\<close>

lemma init_entry_slots:
  assumes "zip_read cap filename = Inr data"
  shows "\<exists>self'. init_entry cap filename self = Inr self' \<and>
           (\<forall>k<12. slots self' ! k =
                      (if endswith (lower filename) (suffix_of k) then Some data
                       else slots self ! k))"
proof (cases "\<exists>i<12. endswith (lower filename) (suffix_of i)")
  case True
  then obtain i where i: "i < 12" "endswith (lower filename) (suffix_of i)" by blast
  from init_entry_match [OF i assms] obtain s1 where
    s1: "init_entry cap filename self = Inr s1" "slots s1 = (slots self)[i := Some data]"
    by blast
  have "slots s1 ! k =
          (if endswith (lower filename) (suffix_of k) then Some data else slots self ! k)"
    if k: "k < 12" for k
  proof (cases "k = i")
    case True
    with i s1(2) show ?thesis by (simp add: length_slots)
  next
    case False
    with suffix_excl [OF i(1) k _ i(2)] have "\<not> endswith (lower filename) (suffix_of k)"
      by blast
    with False s1(2) show ?thesis by simp
  qed
  with s1(1) show ?thesis by blast
next
  case False
  then have "init_entry cap filename self = Inr self"
    by (intro init_entry_nomatch) blast
  with False show ?thesis by auto
qed

lemma find_snoc:
  "find P (xs @ [x]) =
     (case find P xs of None \<Rightarrow> (if P x then Some x else None) | Some y \<Rightarrow> Some y)"
  by (induction xs) simp_all

lemma zip_read_Inr: "zip_read cap filename = Inr data \<Longrightarrow> map_of (rev cap) filename = Some data"
  by (simp add: zip_read_def split: option.splits)

text \<open>The loop, exactly: each slot holds what \<^verbatim>\<open>read\<close> returns for the last name that selects
  it, or what it held before when no name does.\<close>

lemma init_entries_last:
  assumes "set ns \<subseteq> set (namelist cap)"
  shows "\<exists>self'. init_entries cap ns self = Inr self' \<and>
           (\<forall>i<12. slots self' ! i =
                      (case find (\<lambda>fn. endswith (lower fn) (suffix_of i)) (rev ns) of
                         None \<Rightarrow> slots self ! i
                       | Some fn \<Rightarrow> map_of (rev cap) fn))"
  using assms
proof (induction ns arbitrary: self)
  case Nil
  then show ?case by simp
next
  case (Cons fn ns)
  from Cons.prems have fn: "fn \<in> set (namelist cap)" and ns: "set ns \<subseteq> set (namelist cap)"
    by simp_all
  from zip_read_namelist [OF fn] obtain data where rd: "zip_read cap fn = Inr data"
    by blast
  note m = zip_read_Inr [OF rd]
  from init_entry_slots [OF rd, of self] obtain s1 where
    e: "init_entry cap fn self = Inr s1" and
    s1: "\<And>k. k < 12 \<Longrightarrow>
           slots s1 ! k =
             (if endswith (lower fn) (suffix_of k) then Some data else slots self ! k)"
    by blast
  from Cons.IH [OF ns, of s1] obtain s2 where
    l: "init_entries cap ns s1 = Inr s2" and
    s2: "\<And>i. i < 12 \<Longrightarrow>
           slots s2 ! i =
             (case find (\<lambda>fn. endswith (lower fn) (suffix_of i)) (rev ns) of
                None \<Rightarrow> slots s1 ! i
              | Some fn \<Rightarrow> map_of (rev cap) fn)"
    by blast
  have "slots s2 ! i =
          (case find (\<lambda>fn. endswith (lower fn) (suffix_of i)) (rev (fn # ns)) of
             None \<Rightarrow> slots self ! i
           | Some fn \<Rightarrow> map_of (rev cap) fn)"
    if i: "i < 12" for i
    using s1 [OF i] s2 [OF i] m by (simp add: find_snoc split: option.splits)
  moreover have "init_entries cap (fn # ns) self = Inr s2" by (simp add: e l)
  ultimately show ?case by blast
qed

text \<open>Reading by name what the last selecting name names is reading the last selected
  entry.\<close>

lemma find_fst_map_of:
  "(case find P (map fst xs) of None \<Rightarrow> None | Some f \<Rightarrow> map_of xs f) =
   map_option snd (find (\<lambda>(f, d). P f) xs)"
proof (induction xs)
  case Nil
  then show ?case by simp
next
  case (Cons x xs)
  obtain f d where x: "x = (f, d)" by (cases x)
  show ?case
  proof (cases "P f")
    case True
    then show ?thesis by (simp add: x)
  next
    case False
    have "map_of ((f, d) # xs) f' = map_of xs f'" if "find P (map fst xs) = Some f'" for f'
    proof -
      from that have "P f'" by (auto simp: find_Some_iff)
      with False have "f' \<noteq> f" by auto
      then show ?thesis by simp
    qed
    with False Cons.IH show ?thesis
      by (simp add: x split: option.splits)
  qed
qed

lemma slots_eq_map:
  assumes "\<And>i. i < 12 \<Longrightarrow> slots self ! i = f i"
  shows "slots self = map f [0..<12]"
  by (rule nth_equalityI) (simp_all add: length_slots assms)

lemma init_entries_last_entry:
  "\<exists>self. init_entries cap (namelist cap) CapFile_class = Inr self \<and>
          slots self = map (last_entry cap) [0..<12]"
proof -
  from init_entries_last [OF subset_refl, of cap CapFile_class] obtain self where
    l: "init_entries cap (namelist cap) CapFile_class = Inr self" and
    s: "\<And>i. i < 12 \<Longrightarrow>
          slots self ! i =
            (case find (\<lambda>fn. endswith (lower fn) (suffix_of i)) (rev (namelist cap)) of
               None \<Rightarrow> slots CapFile_class ! i
             | Some fn \<Rightarrow> map_of (rev cap) fn)"
    by blast
  have r: "rev (namelist cap) = map fst (rev cap)"
    by (simp add: namelist_def rev_map)
  have "slots self ! i = last_entry cap i" if i: "i < 12" for i
  proof -
    have "slots self ! i =
            (case find (\<lambda>fn. endswith (lower fn) (suffix_of i)) (map fst (rev cap)) of
               None \<Rightarrow> None
             | Some fn \<Rightarrow> map_of (rev cap) fn)"
      using s [OF i] by (simp only: r slots_CapFile_class [OF i])
    also have "\<dots> = last_entry cap i"
      unfolding last_entry_def by (rule find_fst_map_of)
    finally show ?thesis .
  qed
  from slots_eq_map [of self "last_entry cap", OF this] l show ?thesis by blast
qed

text \<open>Entries that are not selected do not count for \<open>last_entry\<close>.\<close>

lemma find_filter:
  "(\<And>x. Q x \<Longrightarrow> S x) \<Longrightarrow> find Q (filter S xs) = find Q xs"
  by (induction xs) auto

lemma last_entry_filter_selected:
  assumes "i < 12"
  shows "last_entry (filter selected cap) i = last_entry cap i"
proof -
  have "selected x" if "(\<lambda>(filename, data). endswith (lower filename) (suffix_of i)) x" for x
    using that assms by (auto simp: selected_def)
  from find_filter [where Q = "\<lambda>(filename, data). endswith (lower filename) (suffix_of i)"
      and S = selected and xs = "rev cap", OF this]
  show ?thesis by (simp add: last_entry_def rev_filter)
qed

lemma slots_inject: "slots self = slots self' \<Longrightarrow> self = (self' :: CapFile)"
  by (cases self, cases self') (simp add: slots_def)

text \<open>
  C8, as stated, fails for an entry that shares its name with a later entry: \<^verbatim>\<open>read\<close>
  returns the data of the later one, so what the first entry holds is stored neither in
  its own iteration nor at the end.
\<close>

theorem twice_header_counterexample:
  "(''Header.cap'', [1, 0, 0]) \<in> set twice_header_cap \<and>
   endswith (lower ''Header.cap'') (lower ''Header'' @ ''.cap'') \<and>
   init_entry twice_header_cap ''Header.cap'' CapFile_class =
     Inr (CapFile_class\<lparr>component_header := Some [1, 0, 1, 0xAA]\<rparr>) \<and>
   init_entries twice_header_cap (namelist twice_header_cap) CapFile_class =
     Inr (CapFile_class\<lparr>component_header := Some [1, 0, 1, 0xAA]\<rparr>)"
  by code_simp

text \<open>
  C8, amended. The loop of \<^verbatim>\<open>__init__\<close> over an archive never raises, and when it is
  through, the slot of each of the twelve components holds the data of the last entry
  whose lowered name ends in the component's lowered table name followed by \<^verbatim>\<open>.cap\<close>,
  and is empty when there is no such entry; on this object the mandatory components
  are then checked. Entries whose name ends in none of the twelve suffixes are passed
  over: \<^verbatim>\<open>__init__\<close> returns for the archive what it returns for the archive without them.
\<close>

theorem CapFile_init_last_entry:
  "(\<exists>self. init_entries cap (namelist cap) CapFile_class = Inr self \<and>
           slots self = map (last_entry cap) [0..<12] \<and>
           CapFile_init cap = check_mandatory self) \<and>
   CapFile_init (filter selected cap) = CapFile_init cap"
proof -
  from init_entries_last_entry [of cap] obtain self where
    l: "init_entries cap (namelist cap) CapFile_class = Inr self" and
    s: "slots self = map (last_entry cap) [0..<12]"
    by blast
  from init_entries_last_entry [of "filter selected cap"] obtain self' where
    l': "init_entries (filter selected cap) (namelist (filter selected cap)) CapFile_class =
           Inr self'" and
    s': "slots self' = map (last_entry (filter selected cap)) [0..<12]"
    by blast
  have "slots self' = slots self"
    by (simp only: s s') (simp add: last_entry_filter_selected)
  then have "self' = self" by (rule slots_inject)
  with l l' have "CapFile_init (filter selected cap) = CapFile_init cap"
    by (simp add: CapFile_init_def)
  moreover have "CapFile_init cap = check_mandatory self"
    by (simp add: CapFile_init_def l)
  ultimately show ?thesis using l s by blast
qed

text \<open>The archive with \<^verbatim>\<open>FOO/javacard/Header.cap\<close> and a manifest: the entry is stored as the
  Header component, the manifest is passed over.\<close>

lemma init_entries_header_only:
  "init_entries header_only_cap (namelist header_only_cap) CapFile_class =
     Inr (CapFile_class\<lparr>component_header := Some [1, 0, 0]\<rparr>)"
  by code_simp

lemma last_entry_header_only: "last_entry header_only_cap 0 = Some [1, 0, 0]"
  by code_simp

lemma filter_selected_header_only:
  "filter selected header_only_cap = [(''FOO/javacard/Header.cap'', [1, 0, 0])]"
  by code_simp

theorem CapFile_init_last_entry_witness:
  "init_entries header_only_cap (namelist header_only_cap) CapFile_class =
     Inr (CapFile_class\<lparr>component_header := Some [1, 0, 0]\<rparr>) \<and>
   slots (CapFile_class\<lparr>component_header := Some [1, 0, 0]\<rparr>) =
     map (last_entry header_only_cap) [0..<12] \<and>
   last_entry header_only_cap 0 = Some [1, 0, 0] \<and>
   filter selected header_only_cap = [(''FOO/javacard/Header.cap'', [1, 0, 0])] \<and>
   CapFile_init [(''FOO/javacard/Header.cap'', [1, 0, 0])] = CapFile_init header_only_cap"
proof -
  from CapFile_init_last_entry [of header_only_cap] obtain self where
    "init_entries header_only_cap (namelist header_only_cap) CapFile_class = Inr self" and
    s: "slots self = map (last_entry header_only_cap) [0..<12]" and
    f: "CapFile_init (filter selected header_only_cap) = CapFile_init header_only_cap"
    by blast
  then have "self = CapFile_class\<lparr>component_header := Some [1, 0, 0]\<rparr>"
    by (simp add: init_entries_header_only)
  with s f show ?thesis
    by (simp only: init_entries_header_only last_entry_header_only
          filter_selected_header_only simp_thms)
qed

lemma CapFile_init_success:
  assumes "\<forall>(i, name) \<in> set mandatory. has_entry cap i"
  shows "\<exists>self. CapFile_init cap = Inr self \<and>
           (\<forall>i<12. (slots self ! i = None) = (\<not> has_entry cap i) \<and>
                    (\<forall>d. slots self ! i = Some d \<longrightarrow>
                       (\<exists>fn. (fn, d) \<in> set cap \<and> endswith (lower fn) (suffix_of i))))"
  using CapFile_init_cases [of cap] assms by (simp add: mandatory_def) blast

lemma CapFile_init_failure:
  assumes "\<exists>(i, name) \<in> set mandatory. \<not> has_entry cap i"
  shows "\<exists>(i, name) \<in> set mandatory.
           \<not> has_entry cap i \<and> CapFile_init cap = Inl (MissingComponent name)"
proof -
  from CapFile_init_cases [of cap] obtain self where
    "CapFile_init cap =
       (if \<not> has_entry cap 0 then Inl (MissingComponent ''Header'')
        else if \<not> has_entry cap 1 then Inl (MissingComponent ''Directory'')
        else if \<not> has_entry cap 3 then Inl (MissingComponent ''Import'')
        else if \<not> has_entry cap 4 then Inl (MissingComponent ''ConstantPool'')
        else if \<not> has_entry cap 5 then Inl (MissingComponent ''Class'')
        else if \<not> has_entry cap 6 then Inl (MissingComponent ''Method'')
        else if \<not> has_entry cap 7 then Inl (MissingComponent ''StaticField'')
        else if \<not> has_entry cap 8 then Inl (MissingComponent ''ReferenceLocation'')
        else if \<not> has_entry cap 10 then Inl (MissingComponent ''Descriptor'')
        else Inr self)"
    by blast
  with assms show ?thesis
    by (simp add: mandatory_def)
qed

text \<open>An archive that \<^verbatim>\<open>__init__\<close> accepts has an entry for each mandatory component.\<close>

lemma CapFile_init_Inr_has_entry:
  assumes "CapFile_init cap = Inr self"
  shows "\<forall>(i, name) \<in> set mandatory. has_entry cap i"
proof (rule ccontr)
  assume "\<not> (\<forall>(i, name) \<in> set mandatory. has_entry cap i)"
  then have "\<exists>(i, name) \<in> set mandatory. \<not> has_entry cap i" by auto
  from CapFile_init_failure [OF this] assms show False by auto
qed

text \<open>
  C2. If one of the nine mandatory components has no entry in the archive, \<^verbatim>\<open>__init__\<close>
  raises the error that names a mandatory component without an entry (the first in the
  order of the checks) and returns no object; if each of the nine has an entry, it
  returns an object.
\<close>

theorem CapFile_init_mandatory:
  "((\<exists>(i, name) \<in> set mandatory. \<not> has_entry cap i) \<longrightarrow>
      (\<exists>(i, name) \<in> set mandatory.
         \<not> has_entry cap i \<and> CapFile_init cap = Inl (MissingComponent name))) \<and>
   ((\<forall>(i, name) \<in> set mandatory. has_entry cap i) \<longrightarrow>
      (\<exists>self. CapFile_init cap = Inr self))"
proof (intro conjI impI)
  assume "\<exists>(i, name) \<in> set mandatory. \<not> has_entry cap i"
  then show "\<exists>(i, name) \<in> set mandatory.
               \<not> has_entry cap i \<and> CapFile_init cap = Inl (MissingComponent name)"
    by (rule CapFile_init_failure)
next
  assume "\<forall>(i, name) \<in> set mandatory. has_entry cap i"
  from CapFile_init_success [OF this] show "\<exists>self. CapFile_init cap = Inr self"
    by blast
qed

lemma header_only_lacks_Directory: "\<exists>(i, name) \<in> set mandatory. \<not> has_entry header_only_cap i"
  by code_simp

lemma CapFile_init_header_only:
  "CapFile_init header_only_cap = Inl (MissingComponent ''Directory'')"
  by code_simp

lemma example_cap_has_mandatory: "\<forall>(i, name) \<in> set mandatory. has_entry example_cap i"
  by (rule CapFile_init_Inr_has_entry [OF CapFile_init_example])

theorem CapFile_init_mandatory_witness:
  "(\<exists>(i, name) \<in> set mandatory.
      \<not> has_entry header_only_cap i \<and>
      CapFile_init header_only_cap = Inl (MissingComponent name)) \<and>
   CapFile_init header_only_cap = Inl (MissingComponent ''Directory'') \<and>
   (\<exists>self. CapFile_init example_cap = Inr self)"
  by (rule conjI [OF CapFile_init_mandatory [THEN conjunct1, THEN mp, OF header_only_lacks_Directory]
        conjI [OF CapFile_init_header_only
          CapFile_init_mandatory [THEN conjunct2, THEN mp, OF example_cap_has_mandatory]]])

text \<open>
  C10. When each of the nine mandatory components has an entry and every entry selected
  as the Descriptor holds no bytes, \<^verbatim>\<open>__init__\<close> returns an object all the same, whose
  Descriptor slot holds the empty byte string, and \<^verbatim>\<open>get_loadfile\<close> returns the
  concatenation of the other components in load order: the test \<^verbatim>\<open>if
  self.__component_descriptor:\<close> is one of non-emptiness and leaves the Descriptor out.
\<close>

theorem empty_descriptor_omitted:
  assumes "\<forall>(i, name) \<in> set mandatory. has_entry cap i"
    and "\<forall>(filename, data) \<in> set cap.
           endswith (lower filename) ''descriptor.cap'' \<longrightarrow> data = []"
  shows "\<exists>self. CapFile_init cap = Inr self \<and> component_descriptor self = Some [] \<and>
           \<not> truthy (component_descriptor self) \<and>
           get_loadfile self =
             Inr (b2h (present (component_header self) @ present (component_directory self) @
                       present (component_import self) @ present (component_applet self) @
                       present (component_class self) @ present (component_method self) @
                       present (component_staticField self) @ present (component_export self) @
                       present (component_constantPool self) @
                       present (component_referenceLocation self)))"
proof -
  from CapFile_init_success [OF assms(1)] obtain self where
    init: "CapFile_init cap = Inr self" and
    s: "\<forall>i<12. (slots self ! i = None) = (\<not> has_entry cap i) \<and>
              (\<forall>d. slots self ! i = Some d \<longrightarrow>
                 (\<exists>fn. (fn, d) \<in> set cap \<and> endswith (lower fn) (suffix_of i)))"
    by blast
  from s have "(slots self ! 10 = None) = (\<not> has_entry cap 10)" and
    d: "\<And>d. slots self ! 10 = Some d \<Longrightarrow>
          \<exists>fn. (fn, d) \<in> set cap \<and> endswith (lower fn) (suffix_of 10)"
    by simp_all
  with assms(1) obtain dd where dd: "slots self ! 10 = Some dd"
    by (auto simp: mandatory_def)
  from d [OF dd] assms(2) have "dd = []"
    by (auto simp: suffix_of_simps)
  with dd have desc: "component_descriptor self = Some []"
    by (simp add: slots_def)
  from get_loadfile_constructed [OF init] init desc show ?thesis
    by (simp add: load_order_def present_def [of "Some []"] truthy_def)
qed

lemma CapFile_init_empty_descriptor:
  "CapFile_init empty_descriptor_cap = Inr empty_descriptor_CapFile"
  by code_simp

lemma empty_descriptor_cap_has_mandatory:
  "\<forall>(i, name) \<in> set mandatory. has_entry empty_descriptor_cap i"
  by (rule CapFile_init_Inr_has_entry [OF CapFile_init_empty_descriptor])

lemma empty_descriptor_cap_empty:
  "\<forall>(filename, data) \<in> set empty_descriptor_cap.
     endswith (lower filename) ''descriptor.cap'' \<longrightarrow> data = []"
  by code_simp

theorem empty_descriptor_omitted_witness:
  "CapFile_init empty_descriptor_cap = Inr empty_descriptor_CapFile \<and>
   component_descriptor empty_descriptor_CapFile = Some [] \<and>
   get_loadfile empty_descriptor_CapFile =
     Inr (b2h ([1, 0, 0] @ [2, 0, 0] @ [4, 0, 0] @ [6, 0, 0] @ [7, 0, 0] @ [8, 0, 0] @
               [5, 0, 0] @ [9, 0, 0]))"
  using empty_descriptor_omitted [OF empty_descriptor_cap_has_mandatory empty_descriptor_cap_empty]
  by (simp add: CapFile_init_empty_descriptor)
     (simp add: empty_descriptor_CapFile_def present_def)

end
